theory Spec2Isabelle
  imports Main
begin

section \<open>Data model\<close>

text \<open>
  The program (\<^verbatim>\<open>app.py\<close>) turns the public web preview of a messaging channel into
  a syndication feed. It works on the tree that the markup library builds from the page.
  A tree node is a tag (name, attributes, children) or a string; the strings that the
  library's \<^verbatim>\<open>.text\<close> leaves out (comments, declarations, the strings inside script
  and style elements) are kept apart from ordinary text. Attribute values are the raw
  strings of the markup; a tag's attributes form a dictionary, read here with
  \<^const>\<open>map_of\<close>.

  A character stands for a code point below 256.
\<close>

datatype node =
    NavigableString string
  | OtherString string
  | Tag string "(string \<times> string) list" "node list"

text \<open>The exceptions the code can raise, as values.\<close>

datatype error = TypeError | KeyError | AttributeError | RuntimeError

record Feed =
  title :: string
  description :: string
  pub_date :: string
  link :: string
  author :: string

record Rss =
  title :: string
  description :: string
  link :: string
  last_build_date :: string
  feeds :: "Feed list"

text \<open>Sequencing of computations that may raise: the first error is the result.\<close>

definition bind :: "error + 'a \<Rightarrow> ('a \<Rightarrow> error + 'b) \<Rightarrow> error + 'b" where
  "bind m f = (case m of Inl e \<Rightarrow> Inl e | Inr x \<Rightarrow> f x)"

section \<open>Strings\<close>

text \<open>
  \<^verbatim>\<open>str.isspace\<close> on one character, for code points below 256: the characters that
  \<^verbatim>\<open>str.strip()\<close> removes and that separate the tokens of a class attribute.
\<close>

definition isspace :: "char \<Rightarrow> bool" where
  "isspace c =
     (c \<in> {CHR 0x09, CHR 0x0A, CHR 0x0B, CHR 0x0C, CHR 0x0D, CHR 0x1C, CHR 0x1D, CHR 0x1E,
           CHR 0x1F, CHR 0x20, CHR 0x85, CHR 0xA0})"

definition strip :: "string \<Rightarrow> string" where
  "strip s = rev (dropWhile isspace (rev (dropWhile isspace s)))"

text \<open>The maximal runs of non-whitespace characters of a string, in order.\<close>

fun tokens_acc :: "string \<Rightarrow> string \<Rightarrow> string list" where
  "tokens_acc cur [] = (if cur = [] then [] else [cur])"
| "tokens_acc cur (c # cs) =
     (if isspace c then (if cur = [] then tokens_acc [] cs else cur # tokens_acc [] cs)
      else tokens_acc (cur @ [c]) cs)"

definition class_tokens :: "string \<Rightarrow> string list" where
  "class_tokens s = tokens_acc [] s"

fun join_space :: "string list \<Rightarrow> string" where
  "join_space [] = []"
| "join_space [t] = t"
| "join_space (t # ts) = t @ '' '' @ join_space ts"

text \<open>
  \<^verbatim>\<open>s.replace(old, new)\<close>: every occurrence of \<open>old\<close>, found from left to right
  without overlap, is replaced by \<open>new\<close>. With an empty \<open>old\<close> Python puts \<open>new\<close>
  before every character and at the end.
\<close>

function replace_from :: "string \<Rightarrow> string \<Rightarrow> string \<Rightarrow> string" where
  "replace_from old new s =
     (if old = [] \<or> s = [] then s
      else if take (length old) s = old then new @ replace_from old new (drop (length old) s)
      else hd s # replace_from old new (tl s))"
  by pat_completeness auto
termination
  by (relation "measure (\<lambda>(old, new, s). length s)") auto

definition replace :: "string \<Rightarrow> string \<Rightarrow> string \<Rightarrow> string" where
  "replace old new s =
     (if old = [] then new @ concat (map (\<lambda>c. c # new) s) else replace_from old new s)"

section \<open>The markup tree\<close>

text \<open>All nodes below a node, in document order (the node itself is not among them).\<close>

fun descendants :: "node \<Rightarrow> node list" where
  "descendants (Tag n a cs) = concat (map (\<lambda>c. c # descendants c) cs)"
| "descendants (NavigableString s) = []"
| "descendants (OtherString s) = []"

text \<open>\<^verbatim>\<open>tag.attrs.get(k)\<close>\<close>

fun attr_get :: "node \<Rightarrow> string \<Rightarrow> string option" where
  "attr_get (Tag n a cs) k = map_of a k"
| "attr_get (NavigableString s) k = None"
| "attr_get (OtherString s) k = None"

text \<open>
  \<^verbatim>\<open>tag[k]\<close>: \<^verbatim>\<open>KeyError\<close> when the tag has no such attribute. A string node
  cannot be indexed by a string (\<^verbatim>\<open>TypeError\<close>).
\<close>

fun getitem :: "node \<Rightarrow> string \<Rightarrow> error + string" where
  "getitem (Tag n a cs) k = (case map_of a k of None \<Rightarrow> Inl KeyError | Some v \<Rightarrow> Inr v)"
| "getitem (NavigableString s) k = Inl TypeError"
| "getitem (OtherString s) k = Inl TypeError"

text \<open>
  \<^verbatim>\<open>tag.text\<close>: the text strings below the tag, concatenated in document order.
\<close>

fun get_text :: "node \<Rightarrow> string" where
  "get_text (NavigableString s) = s"
| "get_text (OtherString s) = []"
| "get_text (Tag n a cs) = concat (map get_text cs)"

fun tag_named :: "string \<Rightarrow> node \<Rightarrow> bool" where
  "tag_named nm (Tag n a cs) = (n = nm)"
| "tag_named nm (NavigableString s) = False"
| "tag_named nm (OtherString s) = False"

text \<open>
  The library's match of one searched attribute against a tag. The class attribute is
  held as the list of its whitespace-separated tokens and matches when one token, or the
  tokens joined by single spaces, equal the searched value; any other attribute
  matches when its value equals the searched value. A tag without the attribute does
  not match.
\<close>

definition attr_matches :: "node \<Rightarrow> string \<times> string \<Rightarrow> bool" where
  "attr_matches t kv =
     (case attr_get t (fst kv) of
        None \<Rightarrow> False
      | Some raw \<Rightarrow>
          if fst kv = ''class''
          then (let toks = class_tokens raw in snd kv \<in> set toks \<or> snd kv = join_space toks)
          else raw = snd kv)"

definition matches :: "string \<Rightarrow> (string \<times> string) list \<Rightarrow> node \<Rightarrow> bool" where
  "matches nm attrs t = (tag_named nm t \<and> list_all (attr_matches t) attrs)"

text \<open>\<^verbatim>\<open>tag.find_all(name, attrs)\<close> and \<^verbatim>\<open>tag.find(name, attrs)\<close>.\<close>

definition find_all :: "string \<Rightarrow> (string \<times> string) list \<Rightarrow> node \<Rightarrow> node list" where
  "find_all nm attrs t = filter (matches nm attrs) (descendants t)"

definition find :: "string \<Rightarrow> (string \<times> string) list \<Rightarrow> node \<Rightarrow> node option" where
  "find nm attrs t = (case find_all nm attrs t of [] \<Rightarrow> None | x # xs \<Rightarrow> Some x)"

section \<open>Fragment extractors\<close>

text \<open>
  \<^verbatim>\<open>re.search(r"url\('(.*)'\)", s)\<close>, giving group 1 of the match. The dot matches
  every character but the line feed, and the star is greedy: from the leftmost
  \<^verbatim>\<open>url('\<close> that is followed on its line by \<^verbatim>\<open>')\<close>, the group runs to the last
  \<^verbatim>\<open>')\<close> of that line.
\<close>

fun rfind_close :: "string \<Rightarrow> string option" where
  "rfind_close [] = None"
| "rfind_close (c # cs) =
     (case rfind_close cs of
        Some g \<Rightarrow> Some (c # g)
      | None \<Rightarrow> if c = CHR 0x27 \<and> take 1 cs = '')'' then Some [] else None)"

fun re_search_url :: "string \<Rightarrow> string option" where
  "re_search_url [] = None"
| "re_search_url (c # cs) =
     (if take 5 (c # cs) = ''url('' @ [CHR 0x27]
      then (case rfind_close (takeWhile (\<lambda>x. x \<noteq> CHR 0x0A) (drop 5 (c # cs))) of
              Some g \<Rightarrow> Some g
            | None \<Rightarrow> re_search_url cs)
      else re_search_url cs)"

text \<open>\<^verbatim>\<open>parse_image\<close>\<close>

definition parse_image :: "node \<Rightarrow> error + string" where
  \<open>parse_image img =
     bind (getitem img ''style'') (\<lambda>image_style.
       case re_search_url image_style of
         None \<Rightarrow> Inr ''''
       | Some image_link \<Rightarrow>
           Inr (''<img src="'' @ image_link @ ''" referrerpolicy="no-referrer">''))\<close>

text \<open>
  The two ways the code reads below a node it has searched for. \<^verbatim>\<open>find(...)[k]\<close>
  raises \<^verbatim>\<open>TypeError\<close> when nothing is found (\<^verbatim>\<open>None\<close> cannot be indexed), and
  \<^verbatim>\<open>find(...).decode_contents()\<close> raises \<^verbatim>\<open>AttributeError\<close>. The serialiser
  \<^verbatim>\<open>decode_contents\<close> of the markup library is the parameter \<open>dc\<close> of the
  extractors.
\<close>

definition find_item ::
  "string \<Rightarrow> (string \<times> string) list \<Rightarrow> node \<Rightarrow> string \<Rightarrow> error + string" where
  "find_item nm attrs t k =
     (case find nm attrs t of None \<Rightarrow> Inl TypeError | Some x \<Rightarrow> getitem x k)"

definition find_contents ::
  "(node \<Rightarrow> string) \<Rightarrow> string \<Rightarrow> (string \<times> string) list \<Rightarrow> node \<Rightarrow> error + string" where
  "find_contents dc nm attrs t =
     (case find nm attrs t of None \<Rightarrow> Inl AttributeError | Some x \<Rightarrow> Inr (dc x))"

text \<open>\<^verbatim>\<open>parse_reply\<close>\<close>

definition parse_reply :: "(node \<Rightarrow> string) \<Rightarrow> node \<Rightarrow> error + string" where
  \<open>parse_reply dc reply =
     bind (find_contents dc ''span'' [(''class'', ''tgme_widget_message_author_name'')] reply)
       (\<lambda>author.
     bind (find_contents dc ''div'' [(''class'', ''js-message_reply_text'')] reply)
       (\<lambda>text.
     bind (getitem reply ''href'')
       (\<lambda>href.
     Inr (''<div class="rsshub-quote">\<newline>        <blockquote>\<newline>            <p><a href="''
          @ href @ ''"><b>'' @ author @ ''</b>:</a></p>\<newline>            <p>'' @ text
          @ ''</p>\<newline>        </blockquote>\<newline>    </div>''))))\<close>

text \<open>\<^verbatim>\<open>parse_preview\<close>\<close>

definition parse_preview :: "(node \<Rightarrow> string) \<Rightarrow> node \<Rightarrow> error + string" where
  \<open>parse_preview dc preview =
     bind (find_contents dc ''div'' [(''class'', ''link_preview_site_name'')] preview)
       (\<lambda>site_name.
     bind (case find ''i'' [(''class'', ''link_preview_image'')] preview of
             None \<Rightarrow> Inr ''''
           | Some img \<Rightarrow> parse_image img)
       (\<lambda>image_text.
     let preview_title = find ''div'' [(''class'', ''link_preview_title'')] preview in
     bind (getitem preview ''href'')
       (\<lambda>href.
     let preview_title_text =
           ''<a href="'' @ href @ ''">''
           @ (case preview_title of Some t \<Rightarrow> dc t | None \<Rightarrow> site_name) @ ''</a>'';
         preview_description_text =
           (case find ''div'' [(''class'', ''link_preview_description'')] preview of
              None \<Rightarrow> ''''
            | Some d \<Rightarrow> ''<p>'' @ dc d @ ''</p>'')
     in Inr (''<blockquote>\<newline>        <b>'' @ site_name @ ''</b><br>\<newline>        <b>''
             @ preview_title_text @ ''</b><br>\<newline>        '' @ preview_description_text
             @ ''\<newline>        '' @ image_text @ ''\<newline>    </blockquote>''))))\<close>

section \<open>Post extractor\<close>

text \<open>Lines 135 to 142 of \<^verbatim>\<open>parse_feed\<close>: the first value of \<^verbatim>\<open>description\<close>.\<close>

definition body_seed :: "(node \<Rightarrow> string) \<Rightarrow> node \<Rightarrow> string" where
  "body_seed dc feed_tag =
     (case find ''div'' [(''class'', ''js-message_text'')] feed_tag of
        None \<Rightarrow> ''''
      | Some text_content \<Rightarrow>
          (case find ''div'' [(''class'', ''js-message_text'')] text_content of
             Some text_content_inner \<Rightarrow> dc text_content_inner
           | None \<Rightarrow> dc text_content))"

text \<open>Lines 144 to 151: the value of \<^verbatim>\<open>title\<close> before the suffix is appended.\<close>

definition feed_title :: "node \<Rightarrow> string" where
  "feed_title feed_tag =
     (case find ''div'' [(''class'', ''js-message_text'')] feed_tag of
        Some text_content \<Rightarrow>
          (case find ''b'' [] text_content of
             Some b \<Rightarrow> strip (get_text b)
           | None \<Rightarrow> ''...'')
      | None \<Rightarrow> ''...'')"

text \<open>Lines 153 to 155: the loop over the photo-wrap anchors.\<close>

fun images_loop :: "node list \<Rightarrow> string \<Rightarrow> error + string" where
  "images_loop [] descr = Inr descr"
| "images_loop (img # images) descr =
     bind (parse_image img)
       (\<lambda>image_text. images_loop images (descr @ ''\<newline>'' @ image_text))"

definition video_notice :: string where
  "video_notice =
     ''\<newline><p><b>The message contain video, for watch it please visit the channel.</b></p>''"

text \<open>
  \<^verbatim>\<open>parse_feed\<close>. The arguments of \<^verbatim>\<open>Feed(...)\<close> are evaluated in the order
  they are written: the time node, then the date anchor, then the author.
\<close>

definition parse_feed :: "(node \<Rightarrow> string) \<Rightarrow> node \<Rightarrow> error + Feed" where
  "parse_feed dc feed_tag =
     (let description = body_seed dc feed_tag;
          title = feed_title feed_tag;
          images = find_all ''a'' [(''class'', ''tgme_widget_message_photo_wrap'')] feed_tag
      in
      bind (images_loop images description)
        (\<lambda>description.
      let reply = find ''a'' [(''class'', ''tgme_widget_message_reply'')] feed_tag;
          preview = find ''a'' [(''class'', ''tgme_widget_message_link_preview'')] feed_tag
      in
      bind (case reply of
              None \<Rightarrow> Inr description
            | Some r \<Rightarrow>
                bind (parse_reply dc r)
                  (\<lambda>reply_text. Inr (reply_text @ ''\<newline>'' @ description)))
        (\<lambda>description.
      let video = find ''div'' [(''class'', ''tgme_widget_message_video_wrap'')] feed_tag;
          description =
            (case video of None \<Rightarrow> description | Some v \<Rightarrow> description @ video_notice)
      in
      bind (case preview of
              None \<Rightarrow> Inr description
            | Some p \<Rightarrow>
                bind (parse_preview dc p)
                  (\<lambda>preview_text. Inr (description @ ''\<newline>'' @ preview_text)))
        (\<lambda>description.
      let author =
            (case find ''span'' [(''class'', ''tgme_widget_message_from_author'')] feed_tag of
               Some a \<Rightarrow> Some a
             | None \<Rightarrow> find ''a'' [(''class'', ''tgme_widget_message_owner_name'')] feed_tag)
      in
      bind (find_item ''time'' [(''class'', ''time'')] feed_tag ''datetime'')
        (\<lambda>pub_date.
      bind (find_item ''a'' [(''class'', ''tgme_widget_message_date'')] feed_tag ''href'')
        (\<lambda>link.
      case author of
        None \<Rightarrow> Inl AttributeError
      | Some a \<Rightarrow>
          Inr \<lparr>Feed.title = title @ ''...'', description = description,
               pub_date = pub_date, link = link, author = get_text a\<rparr>))))))"

text \<open>\<^verbatim>\<open>parse_feeds\<close>: the loop over the post containers, in document order.\<close>

text \<open>
  The assembly of the body in \<^verbatim>\<open>parse_feed\<close> (lines 135 to 177: text, photos, reply,
  video notice, link preview), which runs before the time node and the date anchor are
  read. It is the same text as in \<^const>\<open>parse_feed\<close>, cut before the construction of
  the \<^verbatim>\<open>Feed\<close>.
\<close>

definition feed_description :: "(node \<Rightarrow> string) \<Rightarrow> node \<Rightarrow> error + string" where
  "feed_description dc feed_tag =
     (let description = body_seed dc feed_tag;
          images = find_all ''a'' [(''class'', ''tgme_widget_message_photo_wrap'')] feed_tag
      in
      bind (images_loop images description)
        (\<lambda>description.
      let reply = find ''a'' [(''class'', ''tgme_widget_message_reply'')] feed_tag;
          preview = find ''a'' [(''class'', ''tgme_widget_message_link_preview'')] feed_tag
      in
      bind (case reply of
              None \<Rightarrow> Inr description
            | Some r \<Rightarrow>
                bind (parse_reply dc r)
                  (\<lambda>reply_text. Inr (reply_text @ ''\<newline>'' @ description)))
        (\<lambda>description.
      let video = find ''div'' [(''class'', ''tgme_widget_message_video_wrap'')] feed_tag;
          description =
            (case video of None \<Rightarrow> description | Some v \<Rightarrow> description @ video_notice)
      in
      (case preview of
         None \<Rightarrow> Inr description
       | Some p \<Rightarrow>
           bind (parse_preview dc p)
             (\<lambda>preview_text. Inr (description @ ''\<newline>'' @ preview_text))))))"

fun feeds_loop :: "(node \<Rightarrow> string) \<Rightarrow> node list \<Rightarrow> Feed list \<Rightarrow> error + Feed list" where
  "feeds_loop dc [] fs = Inr fs"
| "feeds_loop dc (feed_tag # rest) fs =
     bind (parse_feed dc feed_tag) (\<lambda>feed. feeds_loop dc rest (fs @ [feed]))"

definition parse_feeds :: "(node \<Rightarrow> string) \<Rightarrow> node \<Rightarrow> error + Feed list" where
  "parse_feeds dc soup =
     feeds_loop dc (find_all ''div'' [(''class'', ''tgme_widget_message_wrap'')] soup) []"

section \<open>Channel extractor and pipeline\<close>

text \<open>
  \<^verbatim>\<open>parse_rss\<close>. The argument \<open>now\<close> is the string that
  \<^verbatim>\<open>datetime.now(tz=ZoneInfo('UTC')).strftime(...)\<close> returns: the reading of the clock.
\<close>

definition parse_rss :: "node \<Rightarrow> string \<Rightarrow> Feed list \<Rightarrow> string \<Rightarrow> error + Rss" where
  "parse_rss soup url fs now =
     bind (find_item ''meta'' [(''property'', ''og:title'')] soup ''content'')
       (\<lambda>title.
     bind (find_item ''meta'' [(''property'', ''og:description'')] soup ''content'')
       (\<lambda>description.
     Inr \<lparr>Rss.title = title, description = description,
          link = replace ''t.me/s/'' ''t.me/'' url,
          last_build_date = now, feeds = fs\<rparr>))"

text \<open>
  What the program takes from outside: the join of the base URL with the channel name,
  the response (status and text) to the request for a URL, the markup parser, the
  serialiser of a tag's contents and the rendering of the template \<^verbatim>\<open>rss.j2\<close>.
\<close>

record collaborators =
  urljoin :: "string \<Rightarrow> string \<Rightarrow> string"
  session_get :: "string \<Rightarrow> nat \<times> string"
  html_parser :: "string \<Rightarrow> node"
  decode_contents :: "node \<Rightarrow> string"
  template_render :: "Rss \<Rightarrow> string"

definition BASE_URL :: string where
  "BASE_URL = ''https://t.me/s/''"

text \<open>\<^verbatim>\<open>get_channel_content\<close>: any status but 200 raises \<^verbatim>\<open>RuntimeError\<close>.\<close>

definition get_channel_content :: "collaborators \<Rightarrow> string \<Rightarrow> error + string" where
  "get_channel_content env url =
     (let response = session_get env url
      in if fst response \<noteq> 200 then Inl RuntimeError else Inr (snd response))"

definition parse_content :: "collaborators \<Rightarrow> string \<Rightarrow> node" where
  "parse_content env raw_news = html_parser env raw_news"

definition render_rss :: "collaborators \<Rightarrow> Rss \<Rightarrow> string" where
  "render_rss env rss = template_render env rss"

text \<open>
  \<^verbatim>\<open>get_rss_feed\<close>, in two steps: the feed data set of a channel, and its rendering.
\<close>

definition get_rss :: "collaborators \<Rightarrow> string \<Rightarrow> string \<Rightarrow> error + Rss" where
  "get_rss env now channel =
     (let url = urljoin env BASE_URL channel in
      bind (get_channel_content env url)
        (\<lambda>channel_content.
      let soup = parse_content env channel_content in
      bind (parse_feeds (decode_contents env) soup)
        (\<lambda>feeds.
      parse_rss soup url feeds now)))"

definition get_rss_feed :: "collaborators \<Rightarrow> string \<Rightarrow> string \<Rightarrow> error + string" where
  "get_rss_feed env now channel =
     bind (get_rss env now channel) (\<lambda>rss. Inr (render_rss env rss))"

section \<open>Notions of the specification\<close>

text \<open>
  A style value matches the pattern \<^verbatim>\<open>url('...')\<close> when it contains \<^verbatim>\<open>url('\<close>,
  then characters of one line, then \<^verbatim>\<open>')\<close>.
\<close>

definition url_pattern_matches :: "string \<Rightarrow> bool" where
  "url_pattern_matches s =
     (\<exists>p g q. s = p @ ''url('' @ [CHR 0x27] @ g @ [CHR 0x27] @ '')'' @ q \<and> CHR 0x0A \<notin> set g)"

text \<open>A node carries an attribute.\<close>

definition has_attr :: "node \<Rightarrow> string \<Rightarrow> bool" where
  "has_attr t k = (attr_get t k \<noteq> None)"

text \<open>
  The machine-readable time of a post container (the \<^verbatim>\<open>datetime\<close> attribute of its
  time node) and its permalink (the \<^verbatim>\<open>href\<close> of its date anchor), when present.
\<close>

definition time_attribute :: "node \<Rightarrow> string option" where
  "time_attribute ft =
     (case find ''time'' [(''class'', ''time'')] ft of
        None \<Rightarrow> None
      | Some t \<Rightarrow> attr_get t ''datetime'')"

definition date_href :: "node \<Rightarrow> string option" where
  "date_href ft =
     (case find ''a'' [(''class'', ''tgme_widget_message_date'')] ft of
        None \<Rightarrow> None
      | Some a \<Rightarrow> attr_get a ''href'')"

text \<open>A string occurs in another.\<close>

definition occurs_in :: "string \<Rightarrow> string \<Rightarrow> bool" where
  "occurs_in old s = (\<exists>p q. s = p @ old @ q)"

section \<open>Example inputs\<close>

text \<open>A photo-wrap anchor without a style attribute, and a post container holding it.\<close>

definition ex_photo :: node where
  "ex_photo = Tag ''a'' [(''class'', ''tgme_widget_message_photo_wrap'')] []"

definition ex_photo_post :: node where
  "ex_photo_post = Tag ''div'' [(''class'', ''tgme_widget_message_wrap'')] [ex_photo]"

text \<open>A link preview whose image node has no style attribute, and a post container holding it.\<close>

definition ex_preview_image :: node where
  "ex_preview_image = Tag ''i'' [(''class'', ''link_preview_image'')] []"

definition ex_preview :: node where
  "ex_preview =
     Tag ''a'' [(''class'', ''tgme_widget_message_link_preview''), (''href'', ''https://x/'')]
       [Tag ''div'' [(''class'', ''link_preview_site_name'')] [NavigableString ''X''],
        ex_preview_image]"

definition ex_preview_post :: node where
  "ex_preview_post = Tag ''div'' [(''class'', ''tgme_widget_message_wrap'')] [ex_preview]"

text \<open>Post containers, a reply widget, a page with a container that has no time node,
  and a page head with the two meta tags.\<close>

definition ex_bold :: node where
  "ex_bold = Tag ''b'' [] [NavigableString '' Breaking News '']"

definition ex_text :: node where
  "ex_text =
     Tag ''div'' [(''class'', ''tgme_widget_message_text js-message_text'')]
       [ex_bold, NavigableString ''body'']"

definition ex_owner :: node where
  "ex_owner = Tag ''a'' [(''class'', ''tgme_widget_message_owner_name'')] [NavigableString ''Owner'']"

definition ex_date :: node where
  "ex_date =
     Tag ''a'' [(''class'', ''tgme_widget_message_date''), (''href'', ''https://t.me/c/2'')]
       [Tag ''time'' [(''class'', ''time''), (''datetime'', ''2024-01-01T00:00:00+00:00'')] []]"

definition ex_post :: node where
  "ex_post = Tag ''div'' [(''class'', ''tgme_widget_message_wrap'')] [ex_text, ex_owner, ex_date]"

definition ex_plain_post :: node where
  "ex_plain_post = Tag ''div'' [(''class'', ''tgme_widget_message_wrap'')] [ex_owner, ex_date]"

definition ex_inner :: node where
  "ex_inner = Tag ''div'' [(''class'', ''js-message_text'')] [NavigableString ''inner'']"

definition ex_outer :: node where
  "ex_outer = Tag ''div'' [(''class'', ''js-message_text'')] [NavigableString ''outer'', ex_inner]"

definition ex_nested_post :: node where
  "ex_nested_post =
     Tag ''div'' [(''class'', ''tgme_widget_message_wrap'')] [ex_outer, ex_owner, ex_date]"

definition ex_from :: node where
  "ex_from =
     Tag ''span'' [(''class'', ''tgme_widget_message_from_author'')] [NavigableString ''Ann'']"

definition ex_forward_post :: node where
  "ex_forward_post =
     Tag ''div'' [(''class'', ''tgme_widget_message_wrap'')] [ex_from, ex_owner, ex_date]"

definition ex_no_time_post :: node where
  "ex_no_time_post =
     Tag ''div'' [(''class'', ''tgme_widget_message_wrap'')]
       [ex_text, ex_owner,
        Tag ''a'' [(''class'', ''tgme_widget_message_date''), (''href'', ''https://t.me/c/3'')] []]"

definition ex_page :: node where
  "ex_page = Tag ''[document]'' [] [ex_post, ex_no_time_post]"

definition ex_reply_author :: node where
  "ex_reply_author =
     Tag ''span'' [(''class'', ''tgme_widget_message_author_name'')] [NavigableString ''Bob'']"

definition ex_reply_text :: node where
  "ex_reply_text =
     Tag ''div'' [(''class'', ''tgme_widget_message_text js-message_reply_text'')]
       [NavigableString ''quoted'']"

definition ex_reply :: node where
  "ex_reply =
     Tag ''a'' [(''class'', ''tgme_widget_message_reply''), (''href'', ''https://t.me/c/1'')]
       [ex_reply_author, ex_reply_text]"

definition ex_video :: node where
  "ex_video = Tag ''div'' [(''class'', ''tgme_widget_message_video_wrap'')] []"

definition ex_link_preview :: node where
  "ex_link_preview =
     Tag ''a'' [(''class'', ''tgme_widget_message_link_preview''), (''href'', ''https://x/'')]
       [Tag ''div'' [(''class'', ''link_preview_site_name'')] [NavigableString ''X'']]"

definition ex_full_post :: node where
  "ex_full_post =
     Tag ''div'' [(''class'', ''tgme_widget_message_wrap'')]
       [ex_reply, ex_text,
        Tag ''a'' [(''class'', ''tgme_widget_message_photo_wrap''), (''style'', ''none'')] [],
        ex_video, ex_link_preview, ex_owner, ex_date]"

definition ex_meta_page :: node where
  "ex_meta_page =
     Tag ''[document]'' []
       [Tag ''meta'' [(''property'', ''og:title''), (''content'', ''Channel'')] [],
        Tag ''meta'' [(''property'', ''og:description''), (''content'', ''About'')] []]"

text \<open>Posts that lack one of the two required values, and a reply widget without \<^verbatim>\<open>href\<close>.\<close>

definition ex_no_datetime_post :: node where
  "ex_no_datetime_post =
     Tag ''div'' [(''class'', ''tgme_widget_message_wrap'')]
       [ex_text, ex_owner,
        Tag ''a'' [(''class'', ''tgme_widget_message_date''), (''href'', ''https://t.me/c/4'')]
          [Tag ''time'' [(''class'', ''time'')] []]]"

definition ex_no_date_post :: node where
  "ex_no_date_post =
     Tag ''div'' [(''class'', ''tgme_widget_message_wrap'')]
       [ex_text, ex_owner,
        Tag ''time'' [(''class'', ''time''), (''datetime'', ''2024-01-01T00:00:00+00:00'')] []]"

definition ex_no_href_post :: node where
  "ex_no_href_post =
     Tag ''div'' [(''class'', ''tgme_widget_message_wrap'')]
       [ex_text, ex_owner,
        Tag ''a'' [(''class'', ''tgme_widget_message_date'')]
          [Tag ''time'' [(''class'', ''time''), (''datetime'', ''2024-01-01T00:00:00+00:00'')] []]]"

definition ex_bad_reply_post :: node where
  "ex_bad_reply_post =
     Tag ''div'' [(''class'', ''tgme_widget_message_wrap'')]
       [Tag ''a'' [(''class'', ''tgme_widget_message_reply''), (''href'', ''https://t.me/c/1'')] [],
        ex_owner]"

definition ex_reply_no_href :: node where
  "ex_reply_no_href =
     Tag ''a'' [(''class'', ''tgme_widget_message_reply'')] [ex_reply_author, ex_reply_text]"

section \<open>Auxiliary lemmas\<close>

lemma bind_Inl [simp]: "bind (Inl e) f = Inl e"
  by (simp add: bind_def)

lemma bind_Inr [simp]: "bind (Inr x) f = f x"
  by (simp add: bind_def)

lemma bind_eq_Inr: "bind m f = Inr y \<longleftrightarrow> (\<exists>x. m = Inr x \<and> f x = Inr y)"
  by (cases m) simp_all

lemma bind_eq_Inl: "bind m f = Inl e \<longleftrightarrow> (m = Inl e \<or> (\<exists>x. m = Inr x \<and> f x = Inl e))"
  by (cases m) simp_all

lemma rfind_close_sound: "rfind_close l = Some g \<Longrightarrow> \<exists>q. l = g @ [CHR 0x27] @ '')'' @ q"
proof (induction l arbitrary: g)
  case Nil
  then show ?case by simp
next
  case (Cons c cs)
  show ?case
  proof (cases "rfind_close cs")
    case None
    with Cons.prems have c: "c = CHR 0x27" and t: "take 1 cs = '')''" and g: "g = []"
      by (auto split: if_splits)
    from t obtain q where "cs = '')'' @ q"
      by (cases cs) auto
    with c g show ?thesis by simp
  next
    case (Some g')
    with Cons.prems have g: "g = c # g'" by simp
    from Cons.IH [OF Some] obtain q where "cs = g' @ [CHR 0x27] @ '')'' @ q" ..
    with g show ?thesis by simp
  qed
qed

lemma rfind_close_complete: "rfind_close (g @ [CHR 0x27] @ '')'' @ q) \<noteq> None"
  by (induction g) (auto split: option.splits)

lemma re_search_url_sound:
  "re_search_url s = Some g \<Longrightarrow> url_pattern_matches s"
proof (induction s)
  case Nil
  then show ?case by simp
next
  case (Cons c cs)
  let ?line = "takeWhile (\<lambda>x. x \<noteq> CHR 0x0A) (drop 5 (c # cs))"
  show ?case
  proof (cases "take 5 (c # cs) = ''url('' @ [CHR 0x27] \<and> rfind_close ?line \<noteq> None")
    case True
    then obtain g' where g': "rfind_close ?line = Some g'" by auto
    from rfind_close_sound [OF g'] obtain q where q: "?line = g' @ [CHR 0x27] @ '')'' @ q" ..
    have "set g' \<subseteq> set ?line" by (subst q) auto
    then have nl: "CHR 0x0A \<notin> set g'"
      by (auto dest: set_takeWhileD)
    have "c # cs = take 5 (c # cs) @ ?line @ dropWhile (\<lambda>x. x \<noteq> CHR 0x0A) (drop 5 (c # cs))"
      by (simp only: takeWhile_dropWhile_id append_take_drop_id)
    with True q have "c # cs = [] @ ''url('' @ [CHR 0x27] @ g' @ [CHR 0x27] @ '')'' @
        (q @ dropWhile (\<lambda>x. x \<noteq> CHR 0x0A) (drop 5 (c # cs)))"
      by simp
    with nl show ?thesis unfolding url_pattern_matches_def by blast
  next
    case False
    with Cons.prems have "re_search_url cs = Some g"
      by (auto split: if_splits option.splits)
    from Cons.IH [OF this] obtain p g' q where
      "cs = p @ ''url('' @ [CHR 0x27] @ g' @ [CHR 0x27] @ '')'' @ q" "CHR 0x0A \<notin> set g'"
      unfolding url_pattern_matches_def by blast
    then have "c # cs = (c # p) @ ''url('' @ [CHR 0x27] @ g' @ [CHR 0x27] @ '')'' @ q \<and> CHR 0x0A \<notin> set g'"
      by simp
    then show ?thesis unfolding url_pattern_matches_def by blast
  qed
qed

lemma re_search_url_complete:
  assumes "url_pattern_matches s"
  shows "re_search_url s \<noteq> None"
proof -
  from assms obtain p g q where
    s: "s = p @ ''url('' @ [CHR 0x27] @ g @ [CHR 0x27] @ '')'' @ q" and nl: "CHR 0x0A \<notin> set g"
    unfolding url_pattern_matches_def by blast
  have line: "takeWhile (\<lambda>x. x \<noteq> CHR 0x0A) (g @ [CHR 0x27] @ '')'' @ q) =
      g @ [CHR 0x27] @ '')'' @ takeWhile (\<lambda>x. x \<noteq> CHR 0x0A) q"
    using nl by (induction g) auto
  let ?rest = "g @ [CHR 0x27] @ '')'' @ q"
  have "rfind_close (takeWhile (\<lambda>x. x \<noteq> CHR 0x0A) ?rest) \<noteq> None"
    unfolding line by (rule rfind_close_complete)
  then obtain y where y: "rfind_close (takeWhile (\<lambda>x. x \<noteq> CHR 0x0A) ?rest) = Some y"
    by auto
  have "re_search_url (''url('' @ [CHR 0x27] @ ?rest) = Some y"
    using y by simp
  then have here: "re_search_url (''url('' @ [CHR 0x27] @ g @ [CHR 0x27] @ '')'' @ q) \<noteq> None"
    by simp
  have "re_search_url (p @ ''url('' @ [CHR 0x27] @ g @ [CHR 0x27] @ '')'' @ q) \<noteq> None"
  proof (induction p)
    case Nil
    from here show ?case by simp
  next
    case (Cons c p)
    then show ?case by (auto split: option.splits)
  qed
  with s show ?thesis by simp
qed

lemma parse_image_Tag:
  "parse_image (Tag n a cs) =
     (case map_of a ''style'' of
        None \<Rightarrow> Inl KeyError
      | Some s \<Rightarrow>
          (case re_search_url s of
             None \<Rightarrow> Inr []
           | Some l \<Rightarrow> Inr (''<img src=\"'' @ l @ ''\" referrerpolicy=\"no-referrer\">'')))"
  by (simp add: parse_image_def split: option.splits)

lemma matches_Tag: "matches nm attrs x \<Longrightarrow> \<exists>a cs. x = Tag nm a cs"
  by (cases x) (auto simp: matches_def)

lemma find_all_Tag: "x \<in> set (find_all nm attrs t) \<Longrightarrow> \<exists>a cs. x = Tag nm a cs"
  by (auto simp: find_all_def dest: matches_Tag)

lemma find_Some_in: "find nm attrs t = Some x \<Longrightarrow> x \<in> set (find_all nm attrs t)"
  by (auto simp: find_def split: list.splits)

lemma find_Some_Tag: "find nm attrs t = Some x \<Longrightarrow> \<exists>a cs. x = Tag nm a cs"
  by (blast dest: find_Some_in find_all_Tag)

lemma parse_image_no_style:
  "\<not> has_attr (Tag n a cs) ''style'' \<Longrightarrow> parse_image (Tag n a cs) = Inl KeyError"
  by (simp add: has_attr_def parse_image_Tag)

lemma parse_image_Tag_error: "parse_image (Tag n a cs) = Inl e \<Longrightarrow> e = KeyError"
  by (auto simp: parse_image_Tag split: option.splits)

lemma images_loop_KeyError:
  assumes "\<forall>y\<in>set xs. \<exists>n a cs. y = Tag n a cs" and "x \<in> set xs"
    and "\<not> has_attr x ''style''"
  shows "images_loop xs d = Inl KeyError"
  using assms
proof (induction xs arbitrary: d)
  case Nil
  then show ?case by simp
next
  case (Cons y ys)
  from Cons.prems(1) obtain n a cs where y: "y = Tag n a cs" by auto
  show ?case
  proof (cases "parse_image y")
    case (Inl e)
    with y have "e = KeyError" by (auto dest: parse_image_Tag_error)
    with Inl show ?thesis by simp
  next
    case (Inr t)
    have "x \<noteq> y"
    proof
      assume "x = y"
      with Cons.prems(3) y have "parse_image y = Inl KeyError"
        by (simp add: parse_image_no_style)
      with Inr show False by simp
    qed
    with Cons.prems have "x \<in> set ys" and "\<forall>y\<in>set ys. \<exists>n a cs. y = Tag n a cs"
      by auto
    with Cons.IH Cons.prems(3) have "images_loop ys (d @ ''\<newline>'' @ t) = Inl KeyError"
      by blast
    with Inr show ?thesis by simp
  qed
qed

lemma parse_preview_image_error:
  assumes "find ''i'' [(''class'', ''link_preview_image'')] pv = Some img"
    and "parse_image img = Inl e"
  shows "\<exists>e'. parse_preview dc pv = Inl e'"
  using assms
  by (cases "find_contents dc ''div'' [(''class'', ''link_preview_site_name'')] pv")
     (simp_all add: parse_preview_def)

lemma parse_feed_photo_error:
  assumes "img \<in> set (find_all ''a'' [(''class'', ''tgme_widget_message_photo_wrap'')] ft)"
    and "\<not> has_attr img ''style''"
  shows "parse_feed dc ft = Inl KeyError"
proof -
  have "images_loop (find_all ''a'' [(''class'', ''tgme_widget_message_photo_wrap'')] ft)
          (body_seed dc ft) = Inl KeyError"
    using assms by (intro images_loop_KeyError [of _ img]) (auto dest: find_all_Tag)
  then show ?thesis by (simp add: parse_feed_def)
qed

lemma parse_feed_preview_error:
  assumes "find ''a'' [(''class'', ''tgme_widget_message_link_preview'')] ft = Some pv"
    and "parse_preview dc pv = Inl e"
  shows "\<exists>e'. parse_feed dc ft = Inl e'"
proof (cases "images_loop (find_all ''a'' [(''class'', ''tgme_widget_message_photo_wrap'')] ft)
          (body_seed dc ft)")
  case (Inl e1)
  then show ?thesis by (simp add: parse_feed_def)
next
  case (Inr d1)
  show ?thesis
  proof (cases "find ''a'' [(''class'', ''tgme_widget_message_reply'')] ft")
    case None
    with Inr assms show ?thesis by (simp add: parse_feed_def Let_def)
  next
    case (Some r)
    show ?thesis
    proof (cases "parse_reply dc r")
      case (Inl e2)
      with Inr Some show ?thesis by (simp add: parse_feed_def Let_def)
    next
      case (Inr t)
      with \<open>images_loop _ _ = Inr d1\<close> Some assms show ?thesis
        by (simp add: parse_feed_def Let_def)
    qed
  qed
qed

lemma isl_Inr_ex: "\<not> isl m \<Longrightarrow> \<exists>p. m = Inr p"
  by (cases m) auto

text \<open>What a successful run of \<^verbatim>\<open>parse_feed\<close> went through.\<close>

lemma parse_feed_Inr:
  assumes "parse_feed dc ft = Inr p"
  obtains d1 d2 d3 pd lk a where
    "images_loop (find_all ''a'' [(''class'', ''tgme_widget_message_photo_wrap'')] ft)
       (body_seed dc ft) = Inr d1"
    and "(case find ''a'' [(''class'', ''tgme_widget_message_reply'')] ft of
            None \<Rightarrow> Inr d1
          | Some r \<Rightarrow> bind (parse_reply dc r) (\<lambda>reply_text. Inr (reply_text @ ''\<newline>'' @ d1)))
         = Inr d2"
    and "(case find ''a'' [(''class'', ''tgme_widget_message_link_preview'')] ft of
            None \<Rightarrow>
              Inr (case find ''div'' [(''class'', ''tgme_widget_message_video_wrap'')] ft of
                     None \<Rightarrow> d2 | Some v \<Rightarrow> d2 @ video_notice)
          | Some pv \<Rightarrow>
              bind (parse_preview dc pv)
                (\<lambda>preview_text.
                   Inr ((case find ''div'' [(''class'', ''tgme_widget_message_video_wrap'')] ft of
                           None \<Rightarrow> d2 | Some v \<Rightarrow> d2 @ video_notice)
                        @ ''\<newline>'' @ preview_text)))
         = Inr d3"
    and "find_item ''time'' [(''class'', ''time'')] ft ''datetime'' = Inr pd"
    and "find_item ''a'' [(''class'', ''tgme_widget_message_date'')] ft ''href'' = Inr lk"
    and "(case find ''span'' [(''class'', ''tgme_widget_message_from_author'')] ft of
            Some a \<Rightarrow> Some a
          | None \<Rightarrow> find ''a'' [(''class'', ''tgme_widget_message_owner_name'')] ft) = Some a"
    and "p = \<lparr>Feed.title = feed_title ft @ ''...'', description = d3, pub_date = pd,
              link = lk, author = get_text a\<rparr>"
proof -
  from assms obtain d1 where
    d1: "images_loop (find_all ''a'' [(''class'', ''tgme_widget_message_photo_wrap'')] ft)
       (body_seed dc ft) = Inr d1"
    by (cases "images_loop (find_all ''a'' [(''class'', ''tgme_widget_message_photo_wrap'')] ft)
       (body_seed dc ft)") (simp_all add: parse_feed_def)
  let ?r = "(case find ''a'' [(''class'', ''tgme_widget_message_reply'')] ft of
            None \<Rightarrow> Inr d1
          | Some r \<Rightarrow> bind (parse_reply dc r) (\<lambda>reply_text. Inr (reply_text @ ''\<newline>'' @ d1)))"
  from assms d1 obtain d2 where d2: "?r = Inr d2"
    by (cases ?r) (simp_all add: parse_feed_def Let_def)
  let ?v = "(case find ''div'' [(''class'', ''tgme_widget_message_video_wrap'')] ft of
                     None \<Rightarrow> d2 | Some v \<Rightarrow> d2 @ video_notice)"
  let ?p = "(case find ''a'' [(''class'', ''tgme_widget_message_link_preview'')] ft of
            None \<Rightarrow> Inr ?v
          | Some pv \<Rightarrow>
              bind (parse_preview dc pv) (\<lambda>preview_text. Inr (?v @ ''\<newline>'' @ preview_text)))"
  from assms d1 d2 obtain d3 where d3: "?p = Inr d3"
    by (cases ?p) (simp_all add: parse_feed_def Let_def)
  from assms d1 d2 d3 obtain pd where
    pd: "find_item ''time'' [(''class'', ''time'')] ft ''datetime'' = Inr pd"
    by (cases "find_item ''time'' [(''class'', ''time'')] ft ''datetime''")
       (simp_all add: parse_feed_def Let_def)
  from assms d1 d2 d3 pd obtain lk where
    lk: "find_item ''a'' [(''class'', ''tgme_widget_message_date'')] ft ''href'' = Inr lk"
    by (cases "find_item ''a'' [(''class'', ''tgme_widget_message_date'')] ft ''href''")
       (simp_all add: parse_feed_def Let_def)
  let ?a = "(case find ''span'' [(''class'', ''tgme_widget_message_from_author'')] ft of
            Some a \<Rightarrow> Some a
          | None \<Rightarrow> find ''a'' [(''class'', ''tgme_widget_message_owner_name'')] ft)"
  from assms d1 d2 d3 pd lk obtain a where a: "?a = Some a"
    by (cases ?a) (simp_all add: parse_feed_def Let_def)
  from assms d1 d2 d3 pd lk a have
    "p = \<lparr>Feed.title = feed_title ft @ ''...'', description = d3, pub_date = pd,
              link = lk, author = get_text a\<rparr>"
    by (simp add: parse_feed_def Let_def)
  with d1 d2 d3 pd lk a that show ?thesis by blast
qed

lemma getitem_Inr: "getitem t k = Inr v \<Longrightarrow> attr_get t k = Some v"
  by (cases t) (auto split: option.splits)

lemma find_item_Inr:
  "find_item nm attrs t k = Inr v \<Longrightarrow> \<exists>x. find nm attrs t = Some x \<and> attr_get x k = Some v"
  by (auto simp: find_item_def split: option.splits dest: getitem_Inr)

lemma feeds_loop_error:
  "x \<in> set xs \<Longrightarrow> parse_feed dc x = Inl e \<Longrightarrow> \<exists>e'. feeds_loop dc xs acc = Inl e'"
proof (induction xs arbitrary: acc)
  case Nil
  then show ?case by simp
next
  case (Cons y ys)
  show ?case
  proof (cases "parse_feed dc y")
    case (Inl e1)
    then show ?thesis by simp
  next
    case (Inr f)
    with Cons.prems have "x \<in> set ys" by auto
    with Cons.IH Cons.prems(2) Inr show ?thesis by simp
  qed
qed

lemma images_loop_Inr:
  "images_loop xs d = Inr r \<Longrightarrow>
     \<exists>parts. map parse_image xs = map Inr parts \<and> r = d @ concat (map (\<lambda>i. ''\<newline>'' @ i) parts)"
proof (induction xs arbitrary: d)
  case Nil
  then show ?case by simp
next
  case (Cons x xs)
  from Cons.prems obtain t where t: "parse_image x = Inr t"
    and r: "images_loop xs (d @ ''\<newline>'' @ t) = Inr r"
    by (auto simp: bind_eq_Inr)
  from Cons.IH [OF r] obtain parts where
    "map parse_image xs = map Inr parts"
    "r = (d @ ''\<newline>'' @ t) @ concat (map (\<lambda>i. ''\<newline>'' @ i) parts)"
    by blast
  with t have "map parse_image (x # xs) = map Inr (t # parts)
      \<and> r = d @ concat (map (\<lambda>i. ''\<newline>'' @ i) (t # parts))"
    by simp
  then show ?case by blast
qed

text \<open>\<^const>\<open>strip\<close> removes whitespace at both ends and nothing else.\<close>

lemma rev_dropWhile_split:
  "t = rev (dropWhile P (rev t)) @ rev (takeWhile P (rev t))"
  by (metis rev_append rev_rev_ident takeWhile_dropWhile_id)

lemma strip_decomp:
  "\<exists>l r. s = l @ strip s @ r \<and> list_all isspace l \<and> list_all isspace r"
proof -
  let ?t = "dropWhile isspace s"
  have "s = takeWhile isspace s @ ?t" by simp
  moreover have "?t = strip s @ rev (takeWhile isspace (rev ?t))"
    unfolding strip_def by (rule rev_dropWhile_split)
  moreover have "list_all isspace (takeWhile isspace s)"
    by (auto simp: list_all_iff dest: set_takeWhileD)
  moreover have "list_all isspace (rev (takeWhile isspace (rev ?t)))"
    by (auto simp: list_all_iff dest: set_takeWhileD)
  ultimately show ?thesis by metis
qed

lemma strip_ends:
  assumes "strip s \<noteq> []"
  shows "\<not> isspace (hd (strip s)) \<and> \<not> isspace (last (strip s))"
proof -
  let ?t = "dropWhile isspace s"
  let ?u = "dropWhile isspace (rev ?t)"
  from assms have u: "?u \<noteq> []" by (simp add: strip_def)
  have t: "?t \<noteq> []"
    using u by (metis dropWhile.simps(1) rev.simps(1))
  have "last (strip s) = hd ?u"
    using u by (simp add: strip_def last_rev)
  moreover have "\<not> isspace (hd ?u)" using u by (rule hd_dropWhile)
  moreover have "hd (strip s) = hd ?t"
  proof -
    have "?t = strip s @ rev (takeWhile isspace (rev ?t))"
      unfolding strip_def by (rule rev_dropWhile_split)
    with assms show ?thesis by (metis hd_append2)
  qed
  moreover have "\<not> isspace (hd ?t)" using t by (rule hd_dropWhile)
  ultimately show ?thesis by simp
qed

text \<open>
  \<^const>\<open>replace\<close> leaves a string without an occurrence as it is, and replaces the first
  occurrence and goes on behind it.
\<close>

lemma replace_from_no_occurrence:
  "old \<noteq> [] \<Longrightarrow> \<not> occurs_in old s \<Longrightarrow> replace_from old new s = s"
proof (induction old new s rule: replace_from.induct)
  case (1 old new s)
  show ?case
  proof (cases "s = []")
    case True
    then show ?thesis by simp
  next
    case False
    have np: "take (length old) s \<noteq> old"
    proof
      assume "take (length old) s = old"
      then have "s = [] @ old @ drop (length old) s"
        by (metis append_Nil append_take_drop_id)
      with "1.prems"(2) show False unfolding occurs_in_def by blast
    qed
    have "\<not> occurs_in old (tl s)"
    proof
      assume "occurs_in old (tl s)"
      then obtain p q where "tl s = p @ old @ q" unfolding occurs_in_def by blast
      with False have "s = (hd s # p) @ old @ q" by (cases s) auto
      with "1.prems"(2) show False unfolding occurs_in_def by blast
    qed
    with "1.IH"(2) "1.prems"(1) False np have "replace_from old new (tl s) = tl s" by simp
    with False np "1.prems"(1) show ?thesis
      by (subst replace_from.simps) simp
  qed
qed

lemma replace_from_first_occurrence:
  assumes "old \<noteq> []" and "\<not> occurs_in old (p @ butlast old)"
  shows "replace_from old new (p @ old @ q) = p @ new @ replace_from old new q"
  using assms(2)
proof (induction p)
  case Nil
  from assms(1) show ?case by (subst replace_from.simps) simp
next
  case (Cons c p)
  have np: "take (length old) (c # p @ old @ q) \<noteq> old"
  proof
    assume eq: "take (length old) (c # p @ old @ q) = old"
    define xs where "xs = (c # p) @ butlast old"
    have len: "length old \<le> length xs" by (simp add: xs_def)
    have "old @ q = butlast old @ (last old # q)"
      using assms(1) by (metis append.assoc append_Cons append_Nil append_butlast_last_id)
    then have "c # p @ old @ q = xs @ (last old # q)" by (simp add: xs_def)
    with eq have "take (length old) (xs @ (last old # q)) = old" by simp
    with len have "take (length old) xs = old" by simp
    then have "take (length old) ((c # p) @ butlast old) = old" by (simp add: xs_def)
    then have "(c # p) @ butlast old = [] @ old @ drop (length old) ((c # p) @ butlast old)"
      by (metis append_Nil append_take_drop_id)
    with Cons.prems show False unfolding occurs_in_def by blast
  qed
  have "\<not> occurs_in old (p @ butlast old)"
  proof
    assume "occurs_in old (p @ butlast old)"
    then obtain u v where "p @ butlast old = u @ old @ v" unfolding occurs_in_def by blast
    then have "(c # p) @ butlast old = (c # u) @ old @ v" by simp
    with Cons.prems show False unfolding occurs_in_def by blast
  qed
  with Cons.IH have "replace_from old new (p @ old @ q) = p @ new @ replace_from old new q" .
  with np assms(1) show ?case
    by (subst replace_from.simps) simp
qed

lemma replace_no_occurrence:
  assumes "old \<noteq> []" and "\<not> occurs_in old s"
  shows "replace old new s = s"
proof -
  from assms(1) have "replace old new s = replace_from old new s"
    by (simp only: replace_def if_False)
  also from assms have "\<dots> = s"
    by (rule replace_from_no_occurrence)
  finally show ?thesis .
qed

lemma replace_first_occurrence:
  assumes "old \<noteq> []" and "\<not> occurs_in old (p @ butlast old)"
  shows "replace old new (p @ old @ q) = p @ new @ replace old new q"
proof -
  from assms(1) have r: "replace old new t = replace_from old new t" for t
    by (simp only: replace_def if_False)
  from assms have "replace_from old new (p @ old @ q) = p @ new @ replace_from old new q"
    by (rule replace_from_first_occurrence)
  then show ?thesis
    by (simp only: r)
qed

text \<open>The clock reading reaches the feed data set in one field only.\<close>

lemma parse_rss_now:
  "parse_rss soup url fs now =
     map_sum id (\<lambda>r. r\<lparr>last_build_date := now\<rparr>) (parse_rss soup url fs [])"
  by (cases "find_item ''meta'' [(''property'', ''og:title'')] soup ''content''";
      cases "find_item ''meta'' [(''property'', ''og:description'')] soup ''content''")
     (simp_all add: parse_rss_def)

lemma get_rss_now:
  "get_rss env now channel =
     map_sum id (\<lambda>r. r\<lparr>last_build_date := now\<rparr>) (get_rss env [] channel)"
proof -
  let ?url = "urljoin env BASE_URL channel"
  show ?thesis
  proof (cases "get_channel_content env ?url")
    case (Inl e)
    then show ?thesis by (simp add: get_rss_def)
  next
    case (Inr content)
    show ?thesis
    proof (cases "parse_feeds (decode_contents env) (parse_content env content)")
      case (Inl e)
      with Inr show ?thesis by (simp add: get_rss_def)
    next
      case (Inr fs)
      with \<open>get_channel_content env ?url = Inr content\<close> show ?thesis
        using parse_rss_now [of "parse_content env content" ?url fs now]
        by (simp add: get_rss_def)
    qed
  qed
qed

text \<open>
  \<^verbatim>\<open>parse_feed\<close> assembles the body, then reads the time node, then the date anchor, then
  the author: the order in which the keyword arguments of \<^verbatim>\<open>Feed\<close> are evaluated.
\<close>

lemma parse_feed_steps:
  "parse_feed dc ft =
     bind (feed_description dc ft)
       (\<lambda>description.
     bind (find_item ''time'' [(''class'', ''time'')] ft ''datetime'')
       (\<lambda>pub_date.
     bind (find_item ''a'' [(''class'', ''tgme_widget_message_date'')] ft ''href'')
       (\<lambda>link.
     case (case find ''span'' [(''class'', ''tgme_widget_message_from_author'')] ft of
             Some a \<Rightarrow> Some a
           | None \<Rightarrow> find ''a'' [(''class'', ''tgme_widget_message_owner_name'')] ft) of
       None \<Rightarrow> Inl AttributeError
     | Some a \<Rightarrow>
         Inr \<lparr>Feed.title = feed_title ft @ ''...'', description = description,
              pub_date = pub_date, link = link, author = get_text a\<rparr>)))"
proof (cases "images_loop (find_all ''a'' [(''class'', ''tgme_widget_message_photo_wrap'')] ft)
          (body_seed dc ft)")
  case (Inl e)
  then show ?thesis by (simp add: parse_feed_def feed_description_def)
next
  case d1: (Inr d1)
  let ?r = "(case find ''a'' [(''class'', ''tgme_widget_message_reply'')] ft of
            None \<Rightarrow> Inr d1
          | Some r \<Rightarrow> bind (parse_reply dc r) (\<lambda>reply_text. Inr (reply_text @ ''\<newline>'' @ d1)))"
  show ?thesis
  proof (cases ?r)
    case (Inl e)
    with d1 show ?thesis by (simp add: parse_feed_def feed_description_def Let_def)
  next
    case d2: (Inr d2)
    show ?thesis
    proof (cases "find ''a'' [(''class'', ''tgme_widget_message_link_preview'')] ft")
      case None
      with d1 d2 show ?thesis by (simp add: parse_feed_def feed_description_def Let_def)
    next
      case (Some pv)
      with d1 d2 show ?thesis
        by (cases "parse_preview dc pv") (simp_all add: parse_feed_def feed_description_def Let_def)
    qed
  qed
qed

text \<open>The two ways in which \<^verbatim>\<open>find(...)[k]\<close> raises.\<close>

lemma find_item_kinds:
  "find_item nm attrs t k =
     (case find nm attrs t of
        None \<Rightarrow> Inl TypeError
      | Some x \<Rightarrow> (case attr_get x k of None \<Rightarrow> Inl KeyError | Some v \<Rightarrow> Inr v))"
proof (cases "find nm attrs t")
  case None
  then show ?thesis by (simp add: find_item_def)
next
  case (Some x)
  then obtain a cs where "x = Tag nm a cs" by (blast dest: find_Some_Tag)
  with Some show ?thesis by (simp add: find_item_def)
qed

text \<open>The loop of \<^verbatim>\<open>parse_feeds\<close> stops at the first container that raises, with its error.\<close>

lemma feeds_loop_first_error:
  "\<forall>x\<in>set pre. \<exists>p. parse_feed dc x = Inr p \<Longrightarrow> parse_feed dc ft = Inl e \<Longrightarrow>
     feeds_loop dc (pre @ ft # post) acc = Inl e"
proof (induction pre arbitrary: acc)
  case Nil
  then show ?case by simp
next
  case (Cons y ys)
  from Cons.prems(1) obtain p where "parse_feed dc y = Inr p" by auto
  moreover from Cons.prems have "feeds_loop dc (ys @ ft # post) (acc @ [p]) = Inl e"
    by (intro Cons.IH) auto
  ultimately show ?case by simp
qed

lemma find_Some_parent:
  "find nm attrs t = Some x \<Longrightarrow> \<exists>n a cs. t = Tag n a cs"
  by (cases t) (simp_all add: find_def find_all_def)

section \<open>Claims\<close>

text \<open>
  C1. A post container without the \<^verbatim>\<open>datetime\<close> attribute of a time node or
  without the \<^verbatim>\<open>href\<close> of a date anchor makes \<^verbatim>\<open>parse_feed\<close> raise: no post is
  returned for it, whole or partial. \<^verbatim>\<open>parse_feeds\<close> has no skip path: it raises as well for
  every page that holds such a container, where the specification has the container
  left out of the list of posts. The error is named case by case. An error raised while
  the body is assembled comes first. Otherwise the error is \<^verbatim>\<open>TypeError\<close> when there is
  no time node and \<^verbatim>\<open>KeyError\<close> when the time node has no \<^verbatim>\<open>datetime\<close>; with the
  \<^verbatim>\<open>datetime\<close> read, it is \<^verbatim>\<open>TypeError\<close> when there is no date anchor and
  \<^verbatim>\<open>KeyError\<close> when the date anchor has no \<^verbatim>\<open>href\<close>. \<^verbatim>\<open>parse_feeds\<close> raises the error of
  the first container of the page whose extraction fails. The counterexample is a page
  whose second container has no time node: the result is \<^verbatim>\<open>TypeError\<close>, not a list of
  posts.
\<close>

theorem parse_feed_missing_required:
  "(time_attribute ft = None \<or> date_href ft = None \<longrightarrow> (\<exists>e. parse_feed dc ft = Inl e))
   \<and> ((time_attribute ft = None \<or> date_href ft = None)
        \<and> ft \<in> set (find_all ''div'' [(''class'', ''tgme_widget_message_wrap'')] soup)
      \<longrightarrow> (\<exists>e. parse_feeds dc soup = Inl e))
   \<and> (\<forall>e. feed_description dc ft = Inl e \<longrightarrow> parse_feed dc ft = Inl e)
   \<and> (\<forall>d. feed_description dc ft = Inr d
          \<and> find ''time'' [(''class'', ''time'')] ft = None
        \<longrightarrow> parse_feed dc ft = Inl TypeError)
   \<and> (\<forall>d t. feed_description dc ft = Inr d
          \<and> find ''time'' [(''class'', ''time'')] ft = Some t \<and> attr_get t ''datetime'' = None
        \<longrightarrow> parse_feed dc ft = Inl KeyError)
   \<and> (\<forall>d pd. feed_description dc ft = Inr d \<and> time_attribute ft = Some pd
          \<and> find ''a'' [(''class'', ''tgme_widget_message_date'')] ft = None
        \<longrightarrow> parse_feed dc ft = Inl TypeError)
   \<and> (\<forall>d pd a. feed_description dc ft = Inr d \<and> time_attribute ft = Some pd
          \<and> find ''a'' [(''class'', ''tgme_widget_message_date'')] ft = Some a
          \<and> attr_get a ''href'' = None
        \<longrightarrow> parse_feed dc ft = Inl KeyError)
   \<and> (\<forall>pre post e.
          find_all ''div'' [(''class'', ''tgme_widget_message_wrap'')] soup = pre @ ft # post
          \<and> list_all (\<lambda>x. \<not> isl (parse_feed dc x)) pre \<and> parse_feed dc ft = Inl e
        \<longrightarrow> parse_feeds dc soup = Inl e)"
proof -
  have raises: "\<exists>e. parse_feed dc ft = Inl e"
    if "time_attribute ft = None \<or> date_href ft = None"
  proof -
    have "parse_feed dc ft \<noteq> Inr p" for p
    proof
      assume "parse_feed dc ft = Inr p"
      then obtain pd lk where
        "find_item ''time'' [(''class'', ''time'')] ft ''datetime'' = Inr pd"
        "find_item ''a'' [(''class'', ''tgme_widget_message_date'')] ft ''href'' = Inr lk"
        by (rule parse_feed_Inr)
      then have "time_attribute ft = Some pd" and "date_href ft = Some lk"
        by (auto simp: time_attribute_def date_href_def dest!: find_item_Inr)
      with that show False by auto
    qed
    then show ?thesis by (cases "parse_feed dc ft") auto
  qed
  have c1: "time_attribute ft = None \<or> date_href ft = None \<longrightarrow> (\<exists>e. parse_feed dc ft = Inl e)"
    using raises by blast
  have c2: "(time_attribute ft = None \<or> date_href ft = None)
        \<and> ft \<in> set (find_all ''div'' [(''class'', ''tgme_widget_message_wrap'')] soup)
      \<longrightarrow> (\<exists>e. parse_feeds dc soup = Inl e)"
    using raises by (auto simp: parse_feeds_def dest: feeds_loop_error)
  have c3: "\<forall>e. feed_description dc ft = Inl e \<longrightarrow> parse_feed dc ft = Inl e"
    by (simp add: parse_feed_steps)
  have c4: "\<forall>d. feed_description dc ft = Inr d
          \<and> find ''time'' [(''class'', ''time'')] ft = None
        \<longrightarrow> parse_feed dc ft = Inl TypeError"
    by (simp add: parse_feed_steps find_item_kinds)
  have c5: "\<forall>d t. feed_description dc ft = Inr d
          \<and> find ''time'' [(''class'', ''time'')] ft = Some t \<and> attr_get t ''datetime'' = None
        \<longrightarrow> parse_feed dc ft = Inl KeyError"
    by (simp add: parse_feed_steps find_item_kinds)
  have c6: "\<forall>d pd. feed_description dc ft = Inr d \<and> time_attribute ft = Some pd
          \<and> find ''a'' [(''class'', ''tgme_widget_message_date'')] ft = None
        \<longrightarrow> parse_feed dc ft = Inl TypeError"
    by (auto simp: parse_feed_steps find_item_kinds time_attribute_def split: option.splits)
  have c7: "\<forall>d pd a. feed_description dc ft = Inr d \<and> time_attribute ft = Some pd
          \<and> find ''a'' [(''class'', ''tgme_widget_message_date'')] ft = Some a
          \<and> attr_get a ''href'' = None
        \<longrightarrow> parse_feed dc ft = Inl KeyError"
    by (auto simp: parse_feed_steps find_item_kinds time_attribute_def split: option.splits)
  have c8: "\<forall>pre post e.
          find_all ''div'' [(''class'', ''tgme_widget_message_wrap'')] soup = pre @ ft # post
          \<and> list_all (\<lambda>x. \<not> isl (parse_feed dc x)) pre \<and> parse_feed dc ft = Inl e
        \<longrightarrow> parse_feeds dc soup = Inl e"
  proof (intro allI impI)
    fix pre post e
    assume h: "find_all ''div'' [(''class'', ''tgme_widget_message_wrap'')] soup = pre @ ft # post
          \<and> list_all (\<lambda>x. \<not> isl (parse_feed dc x)) pre \<and> parse_feed dc ft = Inl e"
    then have "\<forall>x\<in>set pre. \<exists>p. parse_feed dc x = Inr p"
      by (auto simp: list_all_iff dest: isl_Inr_ex)
    with h show "parse_feeds dc soup = Inl e"
      by (simp add: parse_feeds_def feeds_loop_first_error)
  qed
  from c1 c2 c3 c4 c5 c6 c7 c8 show ?thesis by blast
qed

theorem parse_feed_missing_required_witness:
  "feed_description get_text ex_bad_reply_post = Inl AttributeError
   \<and> parse_feed get_text ex_bad_reply_post = Inl AttributeError
   \<and> find ''time'' [(''class'', ''time'')] ex_no_time_post = None
   \<and> time_attribute ex_no_time_post = None
   \<and> parse_feed get_text ex_no_time_post = Inl TypeError
   \<and> (\<exists>t. find ''time'' [(''class'', ''time'')] ex_no_datetime_post = Some t
          \<and> attr_get t ''datetime'' = None)
   \<and> parse_feed get_text ex_no_datetime_post = Inl KeyError
   \<and> find ''a'' [(''class'', ''tgme_widget_message_date'')] ex_no_date_post = None
   \<and> parse_feed get_text ex_no_date_post = Inl TypeError
   \<and> (\<exists>a. find ''a'' [(''class'', ''tgme_widget_message_date'')] ex_no_href_post = Some a
          \<and> attr_get a ''href'' = None)
   \<and> date_href ex_no_href_post = None
   \<and> (\<exists>e. parse_feed get_text ex_no_href_post = Inl e)
   \<and> parse_feed get_text ex_no_href_post = Inl KeyError
   \<and> find_all ''div'' [(''class'', ''tgme_widget_message_wrap'')] ex_page
       = [ex_post] @ ex_no_time_post # []
   \<and> \<not> isl (parse_feed get_text ex_post)
   \<and> (\<exists>e. parse_feeds get_text ex_page = Inl e)
   \<and> parse_feeds get_text ex_page = Inl TypeError"
proof -
  have b: "feed_description get_text ex_bad_reply_post = Inl AttributeError" by code_simp
  from parse_feed_missing_required [where dc = get_text and ft = ex_bad_reply_post] b
  have r1: "parse_feed get_text ex_bad_reply_post = Inl AttributeError" by blast
  have "\<not> isl (feed_description get_text ex_no_time_post)" by code_simp
  then obtain d2 where d2: "feed_description get_text ex_no_time_post = Inr d2"
    by (blast dest: isl_Inr_ex)
  have t2: "find ''time'' [(''class'', ''time'')] ex_no_time_post = None" by code_simp
  have a2: "time_attribute ex_no_time_post = None" by code_simp
  from parse_feed_missing_required [where dc = get_text and ft = ex_no_time_post] d2 t2
  have r2: "parse_feed get_text ex_no_time_post = Inl TypeError" by blast
  have "\<not> isl (feed_description get_text ex_no_datetime_post)" by code_simp
  then obtain d3 where d3: "feed_description get_text ex_no_datetime_post = Inr d3"
    by (blast dest: isl_Inr_ex)
  have t3: "find ''time'' [(''class'', ''time'')] ex_no_datetime_post
      = Some (Tag ''time'' [(''class'', ''time'')] [])"
    by code_simp
  have k3: "attr_get (Tag ''time'' [(''class'', ''time'')] []) ''datetime'' = None" by simp
  from parse_feed_missing_required [where dc = get_text and ft = ex_no_datetime_post] d3 t3 k3
  have r3: "parse_feed get_text ex_no_datetime_post = Inl KeyError" by blast
  have "\<not> isl (feed_description get_text ex_no_date_post)" by code_simp
  then obtain d4 where d4: "feed_description get_text ex_no_date_post = Inr d4"
    by (blast dest: isl_Inr_ex)
  have t4: "time_attribute ex_no_date_post = Some ''2024-01-01T00:00:00+00:00''" by code_simp
  have a4: "find ''a'' [(''class'', ''tgme_widget_message_date'')] ex_no_date_post = None"
    by code_simp
  from parse_feed_missing_required [where dc = get_text and ft = ex_no_date_post] d4 t4 a4
  have r4: "parse_feed get_text ex_no_date_post = Inl TypeError" by blast
  have "\<not> isl (feed_description get_text ex_no_href_post)" by code_simp
  then obtain d5 where d5: "feed_description get_text ex_no_href_post = Inr d5"
    by (blast dest: isl_Inr_ex)
  have t5: "time_attribute ex_no_href_post = Some ''2024-01-01T00:00:00+00:00''" by code_simp
  have a5: "find ''a'' [(''class'', ''tgme_widget_message_date'')] ex_no_href_post
      = Some (Tag ''a'' [(''class'', ''tgme_widget_message_date'')]
          [Tag ''time'' [(''class'', ''time''), (''datetime'', ''2024-01-01T00:00:00+00:00'')] []])"
    by code_simp
  have k5: "attr_get (Tag ''a'' [(''class'', ''tgme_widget_message_date'')]
          [Tag ''time'' [(''class'', ''time''), (''datetime'', ''2024-01-01T00:00:00+00:00'')] []])
        ''href'' = None"
    by simp
  have h5: "date_href ex_no_href_post = None" by code_simp
  from parse_feed_missing_required [where dc = get_text and ft = ex_no_href_post] h5
  have e5: "\<exists>e. parse_feed get_text ex_no_href_post = Inl e" by blast
  from parse_feed_missing_required [where dc = get_text and ft = ex_no_href_post] d5 t5 a5 k5
  have r5: "parse_feed get_text ex_no_href_post = Inl KeyError" by blast
  have p: "find_all ''div'' [(''class'', ''tgme_widget_message_wrap'')] ex_page
       = [ex_post] @ ex_no_time_post # []"
    by code_simp
  have s: "\<not> isl (parse_feed get_text ex_post)" by code_simp
  then have l: "list_all (\<lambda>x. \<not> isl (parse_feed get_text x)) [ex_post]" by simp
  have m: "ex_no_time_post \<in> set (find_all ''div'' [(''class'', ''tgme_widget_message_wrap'')] ex_page)"
    by (simp add: p)
  from parse_feed_missing_required [where dc = get_text and ft = ex_no_time_post and soup = ex_page]
    a2 m
  have e6: "\<exists>e. parse_feeds get_text ex_page = Inl e" by blast
  from parse_feed_missing_required [where dc = get_text and ft = ex_no_time_post and soup = ex_page]
    p l r2
  have r6: "parse_feeds get_text ex_page = Inl TypeError" by blast
  from b r1 t2 a2 r2 t3 k3 r3 a4 r4 a5 k5 h5 e5 r5 p s e6 r6 show ?thesis by blast
qed

theorem parse_feed_skip_counterexample:
  "time_attribute ex_no_time_post = None \<and> parse_feeds get_text ex_page = Inl TypeError"
  by code_simp

text \<open>
  C2. The title of an extracted post is the trimmed text of the first \<^verbatim>\<open>b\<close> node
  inside the primary text node followed by \<^verbatim>\<open>...\<close>, and \<^verbatim>\<open>......\<close> when there is no
  primary text node or no \<^verbatim>\<open>b\<close> node in it.
\<close>

theorem parse_feed_title:
  assumes "parse_feed dc ft = Inr p"
  shows "(\<forall>tc b. find ''div'' [(''class'', ''js-message_text'')] ft = Some tc
              \<and> find ''b'' [] tc = Some b
            \<longrightarrow> Feed.title p = strip (get_text b) @ ''...'')
    \<and> (find ''div'' [(''class'', ''js-message_text'')] ft = None
         \<or> (\<exists>tc. find ''div'' [(''class'', ''js-message_text'')] ft = Some tc
                \<and> find ''b'' [] tc = None)
       \<longrightarrow> Feed.title p = ''......'')"
proof -
  from assms have "Feed.title p = feed_title ft @ ''...''"
    by (rule parse_feed_Inr) simp
  then show ?thesis
    by (auto simp: feed_title_def)
qed

theorem parse_feed_title_witness:
  "(\<exists>p. parse_feed get_text ex_post = Inr p
        \<and> find ''div'' [(''class'', ''js-message_text'')] ex_post = Some ex_text
        \<and> find ''b'' [] ex_text = Some ex_bold
        \<and> Feed.title p = strip (get_text ex_bold) @ ''...'')
   \<and> strip (get_text ex_bold) @ ''...'' = ''Breaking News...''
   \<and> (\<exists>p. parse_feed get_text ex_plain_post = Inr p
        \<and> find ''div'' [(''class'', ''js-message_text'')] ex_plain_post = None
        \<and> Feed.title p = ''......'')"
proof -
  have "\<not> isl (parse_feed get_text ex_post)" by code_simp
  then obtain p where p: "parse_feed get_text ex_post = Inr p" by (blast dest: isl_Inr_ex)
  have f1: "find ''div'' [(''class'', ''js-message_text'')] ex_post = Some ex_text" by code_simp
  have f2: "find ''b'' [] ex_text = Some ex_bold" by code_simp
  from parse_feed_title [OF p] f1 f2 have t: "Feed.title p = strip (get_text ex_bold) @ ''...''"
    by blast
  have s: "strip (get_text ex_bold) @ ''...'' = ''Breaking News...''" by code_simp
  have "\<not> isl (parse_feed get_text ex_plain_post)" by code_simp
  then obtain q where q: "parse_feed get_text ex_plain_post = Inr q" by (blast dest: isl_Inr_ex)
  have f3: "find ''div'' [(''class'', ''js-message_text'')] ex_plain_post = None" by code_simp
  from parse_feed_title [OF q] f3 have t': "Feed.title q = ''......''"
    by blast
  from p f1 f2 t s q f3 t' show ?thesis by blast
qed

text \<open>
  C3. For every node whose style attribute value does not match the pattern
  \<^verbatim>\<open>url('...')\<close>, \<^verbatim>\<open>parse_image\<close> returns the empty string and does not raise.
\<close>

theorem parse_image_no_match:
  assumes "getitem img ''style'' = Inr s" and "\<not> url_pattern_matches s"
  shows "parse_image img = Inr []"
proof -
  from assms(2) have "re_search_url s = None"
    using re_search_url_sound by (cases "re_search_url s") auto
  with assms(1) show ?thesis by (simp add: parse_image_def)
qed

theorem parse_image_no_match_witness:
  "getitem (Tag ''a'' [(''style'', ''background-image:url(x.jpg)'')] []) ''style'' =
     Inr ''background-image:url(x.jpg)''
   \<and> \<not> url_pattern_matches ''background-image:url(x.jpg)''
   \<and> parse_image (Tag ''a'' [(''style'', ''background-image:url(x.jpg)'')] []) = Inr []"
proof -
  have h1: "getitem (Tag ''a'' [(''style'', ''background-image:url(x.jpg)'')] []) ''style'' =
      Inr ''background-image:url(x.jpg)''"
    by simp
  have "re_search_url ''background-image:url(x.jpg)'' = None"
    by code_simp
  then have h2: "\<not> url_pattern_matches ''background-image:url(x.jpg)''"
    using re_search_url_complete by blast
  from parse_image_no_match [OF h1 h2] h1 h2 show ?thesis by blast
qed

text \<open>
  C4. The body of an extracted post is, in this order: the reply block and a line
  break (when a reply widget is present), the primary text followed by each extracted image
  after a line break, the video notice (when a video wrapper is present), and a line break
  and the preview block (when a preview anchor is present).
\<close>

theorem parse_feed_body_order:
  assumes "parse_feed dc ft = Inr p"
  shows "\<exists>reply_part image_parts video_part preview_part.
      (case find ''a'' [(''class'', ''tgme_widget_message_reply'')] ft of
         None \<Rightarrow> reply_part = []
       | Some r \<Rightarrow> \<exists>t. parse_reply dc r = Inr t \<and> reply_part = t @ ''\<newline>'')
    \<and> map parse_image (find_all ''a'' [(''class'', ''tgme_widget_message_photo_wrap'')] ft)
        = map Inr image_parts
    \<and> video_part =
        (case find ''div'' [(''class'', ''tgme_widget_message_video_wrap'')] ft of
           None \<Rightarrow> [] | Some v \<Rightarrow> video_notice)
    \<and> (case find ''a'' [(''class'', ''tgme_widget_message_link_preview'')] ft of
         None \<Rightarrow> preview_part = []
       | Some pv \<Rightarrow> \<exists>t. parse_preview dc pv = Inr t \<and> preview_part = ''\<newline>'' @ t)
    \<and> Feed.description p =
        reply_part
        @ (body_seed dc ft @ concat (map (\<lambda>i. ''\<newline>'' @ i) image_parts))
        @ video_part
        @ preview_part"
proof -
  let ?video = "case find ''div'' [(''class'', ''tgme_widget_message_video_wrap'')] ft of
           None \<Rightarrow> [] | Some v \<Rightarrow> video_notice"
  from assms obtain d1 d2 d3 where
    d1: "images_loop (find_all ''a'' [(''class'', ''tgme_widget_message_photo_wrap'')] ft)
       (body_seed dc ft) = Inr d1"
    and d2: "(case find ''a'' [(''class'', ''tgme_widget_message_reply'')] ft of
            None \<Rightarrow> Inr d1
          | Some r \<Rightarrow> bind (parse_reply dc r) (\<lambda>reply_text. Inr (reply_text @ ''\<newline>'' @ d1)))
         = Inr d2"
    and d3: "(case find ''a'' [(''class'', ''tgme_widget_message_link_preview'')] ft of
            None \<Rightarrow>
              Inr (case find ''div'' [(''class'', ''tgme_widget_message_video_wrap'')] ft of
                     None \<Rightarrow> d2 | Some v \<Rightarrow> d2 @ video_notice)
          | Some pv \<Rightarrow>
              bind (parse_preview dc pv)
                (\<lambda>preview_text.
                   Inr ((case find ''div'' [(''class'', ''tgme_widget_message_video_wrap'')] ft of
                           None \<Rightarrow> d2 | Some v \<Rightarrow> d2 @ video_notice)
                        @ ''\<newline>'' @ preview_text)))
         = Inr d3"
    and p: "Feed.description p = d3"
    by (rule parse_feed_Inr) simp
  from images_loop_Inr [OF d1] obtain image_parts where
    imgs: "map parse_image (find_all ''a'' [(''class'', ''tgme_widget_message_photo_wrap'')] ft)
        = map Inr image_parts"
    and d1_eq: "d1 = body_seed dc ft @ concat (map (\<lambda>i. ''\<newline>'' @ i) image_parts)"
    by blast
  from d2 obtain reply_part where
    rp: "case find ''a'' [(''class'', ''tgme_widget_message_reply'')] ft of
         None \<Rightarrow> reply_part = []
       | Some r \<Rightarrow> \<exists>t. parse_reply dc r = Inr t \<and> reply_part = t @ ''\<newline>''"
    and d2_eq: "d2 = reply_part @ d1"
    by (cases "find ''a'' [(''class'', ''tgme_widget_message_reply'')] ft")
       (auto simp: bind_eq_Inr)
  have v: "(case find ''div'' [(''class'', ''tgme_widget_message_video_wrap'')] ft of
             None \<Rightarrow> d2 | Some v \<Rightarrow> d2 @ video_notice) = d2 @ ?video"
    by (simp split: option.splits)
  from d3 obtain preview_part where
    pp: "case find ''a'' [(''class'', ''tgme_widget_message_link_preview'')] ft of
         None \<Rightarrow> preview_part = []
       | Some pv \<Rightarrow> \<exists>t. parse_preview dc pv = Inr t \<and> preview_part = ''\<newline>'' @ t"
    and d3_eq: "d3 = (d2 @ ?video) @ preview_part"
    unfolding v
    by (cases "find ''a'' [(''class'', ''tgme_widget_message_link_preview'')] ft")
       (auto simp: bind_eq_Inr)
  from p d3_eq d2_eq d1_eq have
    "Feed.description p =
        reply_part
        @ (body_seed dc ft @ concat (map (\<lambda>i. ''\<newline>'' @ i) image_parts))
        @ ?video
        @ preview_part"
    by simp
  with rp imgs pp show ?thesis by blast
qed

theorem parse_feed_body_order_witness:
  "\<exists>p. parse_feed get_text ex_full_post = Inr p
    \<and> find ''a'' [(''class'', ''tgme_widget_message_reply'')] ex_full_post = Some ex_reply
    \<and> find ''div'' [(''class'', ''tgme_widget_message_video_wrap'')] ex_full_post = Some ex_video
    \<and> find ''a'' [(''class'', ''tgme_widget_message_link_preview'')] ex_full_post
        = Some ex_link_preview
    \<and> (\<exists>reply_part image_parts video_part preview_part.
      (case find ''a'' [(''class'', ''tgme_widget_message_reply'')] ex_full_post of
         None \<Rightarrow> reply_part = []
       | Some r \<Rightarrow> \<exists>t. parse_reply get_text r = Inr t \<and> reply_part = t @ ''\<newline>'')
    \<and> map parse_image (find_all ''a'' [(''class'', ''tgme_widget_message_photo_wrap'')] ex_full_post)
        = map Inr image_parts
    \<and> video_part =
        (case find ''div'' [(''class'', ''tgme_widget_message_video_wrap'')] ex_full_post of
           None \<Rightarrow> [] | Some v \<Rightarrow> video_notice)
    \<and> (case find ''a'' [(''class'', ''tgme_widget_message_link_preview'')] ex_full_post of
         None \<Rightarrow> preview_part = []
       | Some pv \<Rightarrow> \<exists>t. parse_preview get_text pv = Inr t \<and> preview_part = ''\<newline>'' @ t)
    \<and> Feed.description p =
        reply_part
        @ (body_seed get_text ex_full_post @ concat (map (\<lambda>i. ''\<newline>'' @ i) image_parts))
        @ video_part
        @ preview_part)"
proof -
  have "\<not> isl (parse_feed get_text ex_full_post)" by code_simp
  then obtain p where p: "parse_feed get_text ex_full_post = Inr p" by (blast dest: isl_Inr_ex)
  have f1: "find ''a'' [(''class'', ''tgme_widget_message_reply'')] ex_full_post = Some ex_reply"
    by code_simp
  have f2: "find ''div'' [(''class'', ''tgme_widget_message_video_wrap'')] ex_full_post = Some ex_video"
    by code_simp
  have f3: "find ''a'' [(''class'', ''tgme_widget_message_link_preview'')] ex_full_post
        = Some ex_link_preview"
    by code_simp
  from parse_feed_body_order [OF p] p f1 f2 f3 show ?thesis by blast
qed

text \<open>
  C5. For a reply widget with the author-name node and the quoted-text node,
  \<^verbatim>\<open>parse_reply\<close> returns the blockquote fragment with the author's name in \<^verbatim>\<open>b\<close> inside a
  link to the \<^verbatim>\<open>href\<close> of the anchor, followed by the quoted text, when the anchor has an
  \<^verbatim>\<open>href\<close>; when it has none, \<^verbatim>\<open>parse_reply\<close> raises \<^verbatim>\<open>KeyError\<close> and there is no
  fragment. The counterexample is a widget with both nodes and no \<^verbatim>\<open>href\<close>.
\<close>

theorem parse_reply_fragment:
  assumes "find ''span'' [(''class'', ''tgme_widget_message_author_name'')] reply = Some a"
    and "find ''div'' [(''class'', ''js-message_reply_text'')] reply = Some t"
  shows "(\<forall>h. attr_get reply ''href'' = Some h \<longrightarrow>
      parse_reply dc reply =
        Inr (''<div class=\"rsshub-quote\">\<newline>        <blockquote>\<newline>            <p><a href=\"''
             @ h @ ''\"><b>'' @ dc a @ ''</b>:</a></p>\<newline>            <p>'' @ dc t
             @ ''</p>\<newline>        </blockquote>\<newline>    </div>''))
    \<and> (attr_get reply ''href'' = None \<longrightarrow> parse_reply dc reply = Inl KeyError)"
proof -
  from assms(1) obtain n as cs where r: "reply = Tag n as cs"
    by (blast dest: find_Some_parent)
  have "getitem reply ''href'' =
      (case attr_get reply ''href'' of None \<Rightarrow> Inl KeyError | Some h \<Rightarrow> Inr h)"
    by (simp add: r)
  with assms show ?thesis
    by (auto simp: parse_reply_def find_contents_def)
qed

theorem parse_reply_fragment_witness:
  "find ''span'' [(''class'', ''tgme_widget_message_author_name'')] ex_reply = Some ex_reply_author
   \<and> find ''div'' [(''class'', ''js-message_reply_text'')] ex_reply = Some ex_reply_text
   \<and> attr_get ex_reply ''href'' = Some ''https://t.me/c/1''
   \<and> parse_reply get_text ex_reply =
     Inr (''<div class=\"rsshub-quote\">\<newline>        <blockquote>\<newline>            <p><a href=\"''
          @ ''https://t.me/c/1'' @ ''\"><b>'' @ get_text ex_reply_author
          @ ''</b>:</a></p>\<newline>            <p>'' @ get_text ex_reply_text
          @ ''</p>\<newline>        </blockquote>\<newline>    </div>'')
   \<and> find ''span'' [(''class'', ''tgme_widget_message_author_name'')] ex_reply_no_href
       = Some ex_reply_author
   \<and> find ''div'' [(''class'', ''js-message_reply_text'')] ex_reply_no_href = Some ex_reply_text
   \<and> attr_get ex_reply_no_href ''href'' = None
   \<and> parse_reply get_text ex_reply_no_href = Inl KeyError"
proof -
  have f1: "find ''span'' [(''class'', ''tgme_widget_message_author_name'')] ex_reply = Some ex_reply_author"
    by code_simp
  have f2: "find ''div'' [(''class'', ''js-message_reply_text'')] ex_reply = Some ex_reply_text"
    by code_simp
  have f3: "attr_get ex_reply ''href'' = Some ''https://t.me/c/1''"
    by (simp add: ex_reply_def)
  have g1: "find ''span'' [(''class'', ''tgme_widget_message_author_name'')] ex_reply_no_href
      = Some ex_reply_author"
    by code_simp
  have g2: "find ''div'' [(''class'', ''js-message_reply_text'')] ex_reply_no_href = Some ex_reply_text"
    by code_simp
  have g3: "attr_get ex_reply_no_href ''href'' = None"
    by (simp add: ex_reply_no_href_def)
  from parse_reply_fragment [OF f1 f2, of get_text] parse_reply_fragment [OF g1 g2, of get_text]
    f1 f2 f3 g1 g2 g3
  show ?thesis by blast
qed

theorem parse_reply_no_href_counterexample:
  "find ''span'' [(''class'', ''tgme_widget_message_author_name'')] ex_reply_no_href
       = Some ex_reply_author
   \<and> find ''div'' [(''class'', ''js-message_reply_text'')] ex_reply_no_href = Some ex_reply_text
   \<and> parse_reply get_text ex_reply_no_href = Inl KeyError"
  by code_simp

text \<open>
  C6. The author of an extracted post is the text of the forwarded-from author span
  when there is one, and the text of the owner-name anchor otherwise.
\<close>

theorem parse_feed_author:
  assumes "parse_feed dc ft = Inr p"
  shows "(\<forall>a. find ''span'' [(''class'', ''tgme_widget_message_from_author'')] ft = Some a
            \<longrightarrow> Feed.author p = get_text a)
    \<and> (find ''span'' [(''class'', ''tgme_widget_message_from_author'')] ft = None
         \<longrightarrow> (\<exists>ow. find ''a'' [(''class'', ''tgme_widget_message_owner_name'')] ft = Some ow
                  \<and> Feed.author p = get_text ow))"
proof -
  from assms obtain a where
    "(case find ''span'' [(''class'', ''tgme_widget_message_from_author'')] ft of
        Some a \<Rightarrow> Some a
      | None \<Rightarrow> find ''a'' [(''class'', ''tgme_widget_message_owner_name'')] ft) = Some a"
    and "Feed.author p = get_text a"
    by (rule parse_feed_Inr) simp
  then show ?thesis
    by (auto split: option.splits)
qed

theorem parse_feed_author_witness:
  "(\<exists>p. parse_feed get_text ex_forward_post = Inr p
        \<and> find ''span'' [(''class'', ''tgme_widget_message_from_author'')] ex_forward_post = Some ex_from
        \<and> Feed.author p = get_text ex_from)
   \<and> (\<exists>p. parse_feed get_text ex_post = Inr p
        \<and> find ''span'' [(''class'', ''tgme_widget_message_from_author'')] ex_post = None
        \<and> (\<exists>ow. find ''a'' [(''class'', ''tgme_widget_message_owner_name'')] ex_post = Some ow
                \<and> Feed.author p = get_text ow))"
proof -
  have "\<not> isl (parse_feed get_text ex_forward_post)" by code_simp
  then obtain p where p: "parse_feed get_text ex_forward_post = Inr p"
    by (blast dest: isl_Inr_ex)
  have f1: "find ''span'' [(''class'', ''tgme_widget_message_from_author'')] ex_forward_post = Some ex_from"
    by code_simp
  from parse_feed_author [OF p] f1 have a1: "Feed.author p = get_text ex_from" by blast
  have "\<not> isl (parse_feed get_text ex_post)" by code_simp
  then obtain q where q: "parse_feed get_text ex_post = Inr q" by (blast dest: isl_Inr_ex)
  have f2: "find ''span'' [(''class'', ''tgme_widget_message_from_author'')] ex_post = None"
    by code_simp
  from parse_feed_author [OF q] f2 have a2:
    "\<exists>ow. find ''a'' [(''class'', ''tgme_widget_message_owner_name'')] ex_post = Some ow
                \<and> Feed.author q = get_text ow"
    by blast
  from p f1 a1 q f2 a2 show ?thesis by blast
qed

text \<open>
  C7. The link of the feed data set is the fetch URL with every occurrence of
  \<^verbatim>\<open>t.me/s/\<close> replaced by \<^verbatim>\<open>t.me/\<close>.
\<close>

theorem parse_rss_link:
  assumes "parse_rss soup url fs now = Inr r"
  shows "Rss.link r = replace ''t.me/s/'' ''t.me/'' url"
  using assms by (auto simp: parse_rss_def bind_eq_Inr)

theorem parse_rss_link_witness:
  "\<exists>r. parse_rss ex_meta_page ''https://t.me/s/chan'' [] ''now'' = Inr r
     \<and> Rss.link r = replace ''t.me/s/'' ''t.me/'' ''https://t.me/s/chan''
     \<and> replace ''t.me/s/'' ''t.me/'' ''https://t.me/s/chan'' = ''https://t.me/chan''"
proof -
  have "\<not> isl (parse_rss ex_meta_page ''https://t.me/s/chan'' [] ''now'')" by code_simp
  then obtain r where r: "parse_rss ex_meta_page ''https://t.me/s/chan'' [] ''now'' = Inr r"
    by (blast dest: isl_Inr_ex)
  have e: "replace ''t.me/s/'' ''t.me/'' ''https://t.me/s/chan'' = ''https://t.me/chan''"
    by code_simp
  from parse_rss_link [OF r] r e show ?thesis by blast
qed

text \<open>
  C9. The first value of the body is the content of the text node nested in the
  primary text node when there is one, the content of the primary text node when there is
  none, and the empty string when there is no primary text node.
\<close>

theorem body_seed_cases:
  "(\<forall>tc inner. find ''div'' [(''class'', ''js-message_text'')] ft = Some tc
        \<and> find ''div'' [(''class'', ''js-message_text'')] tc = Some inner
      \<longrightarrow> body_seed dc ft = dc inner)
   \<and> (\<forall>tc. find ''div'' [(''class'', ''js-message_text'')] ft = Some tc
        \<and> find ''div'' [(''class'', ''js-message_text'')] tc = None
      \<longrightarrow> body_seed dc ft = dc tc)
   \<and> (find ''div'' [(''class'', ''js-message_text'')] ft = None \<longrightarrow> body_seed dc ft = [])"
  by (simp add: body_seed_def)

theorem body_seed_cases_witness:
  "(find ''div'' [(''class'', ''js-message_text'')] ex_nested_post = Some ex_outer
      \<and> find ''div'' [(''class'', ''js-message_text'')] ex_outer = Some ex_inner
      \<and> body_seed get_text ex_nested_post = get_text ex_inner)
   \<and> (find ''div'' [(''class'', ''js-message_text'')] ex_post = Some ex_text
      \<and> find ''div'' [(''class'', ''js-message_text'')] ex_text = None
      \<and> body_seed get_text ex_post = get_text ex_text)
   \<and> (find ''div'' [(''class'', ''js-message_text'')] ex_plain_post = None
      \<and> body_seed get_text ex_plain_post = [])"
proof -
  have f1: "find ''div'' [(''class'', ''js-message_text'')] ex_nested_post = Some ex_outer"
    by code_simp
  have f2: "find ''div'' [(''class'', ''js-message_text'')] ex_outer = Some ex_inner"
    by code_simp
  have f3: "find ''div'' [(''class'', ''js-message_text'')] ex_post = Some ex_text"
    by code_simp
  have f4: "find ''div'' [(''class'', ''js-message_text'')] ex_text = None"
    by code_simp
  have f5: "find ''div'' [(''class'', ''js-message_text'')] ex_plain_post = None"
    by code_simp
  from body_seed_cases [of ex_nested_post get_text] f1 f2
  have c1: "body_seed get_text ex_nested_post = get_text ex_inner" by blast
  from body_seed_cases [of ex_post get_text] f3 f4
  have c2: "body_seed get_text ex_post = get_text ex_text" by blast
  from body_seed_cases [of ex_plain_post get_text] f5
  have c3: "body_seed get_text ex_plain_post = []" by blast
  from f1 f2 f3 f4 f5 c1 c2 c3 show ?thesis by blast
qed

text \<open>
  C10. \<^verbatim>\<open>parse_image\<close> returns (an image tag or the empty string) on every tag that
  carries a style attribute, and raises \<^verbatim>\<open>KeyError\<close> on every tag that carries none;
  a photo-wrap anchor or a preview image node without a style attribute makes
  \<^verbatim>\<open>parse_feed\<close> raise for the whole post.
\<close>

theorem parse_image_conditional:
  "(has_attr (Tag n a cs) ''style'' \<longrightarrow>
      parse_image (Tag n a cs) = Inr [] \<or>
      (\<exists>l. parse_image (Tag n a cs) = Inr (''<img src=\"'' @ l @ ''\" referrerpolicy=\"no-referrer\">'')))
   \<and> (\<not> has_attr (Tag n a cs) ''style'' \<longrightarrow> parse_image (Tag n a cs) = Inl KeyError)
   \<and> (img \<in> set (find_all ''a'' [(''class'', ''tgme_widget_message_photo_wrap'')] ft)
        \<and> \<not> has_attr img ''style'' \<longrightarrow> parse_feed dc ft = Inl KeyError)
   \<and> (find ''a'' [(''class'', ''tgme_widget_message_link_preview'')] ft = Some pv
        \<and> find ''i'' [(''class'', ''link_preview_image'')] pv = Some pimg
        \<and> \<not> has_attr pimg ''style'' \<longrightarrow> (\<exists>e. parse_feed dc ft = Inl e))"
proof (intro conjI impI)
  assume "has_attr (Tag n a cs) ''style''"
  then show "parse_image (Tag n a cs) = Inr [] \<or>
      (\<exists>l. parse_image (Tag n a cs) = Inr (''<img src=\"'' @ l @ ''\" referrerpolicy=\"no-referrer\">''))"
    by (auto simp: has_attr_def parse_image_Tag split: option.splits)
next
  assume "\<not> has_attr (Tag n a cs) ''style''"
  then show "parse_image (Tag n a cs) = Inl KeyError" by (rule parse_image_no_style)
next
  assume "img \<in> set (find_all ''a'' [(''class'', ''tgme_widget_message_photo_wrap'')] ft)
        \<and> \<not> has_attr img ''style''"
  then show "parse_feed dc ft = Inl KeyError" by (blast intro: parse_feed_photo_error)
next
  assume h: "find ''a'' [(''class'', ''tgme_widget_message_link_preview'')] ft = Some pv
        \<and> find ''i'' [(''class'', ''link_preview_image'')] pv = Some pimg
        \<and> \<not> has_attr pimg ''style''"
  then obtain a' cs' where "pimg = Tag ''i'' a' cs'" by (blast dest: find_Some_Tag)
  with h have "parse_image pimg = Inl KeyError" by (simp add: parse_image_no_style)
  with h obtain e' where "parse_preview dc pv = Inl e'"
    by (blast dest: parse_preview_image_error)
  with h show "\<exists>e. parse_feed dc ft = Inl e" by (blast intro: parse_feed_preview_error)
qed

theorem parse_image_conditional_witness:
  "(has_attr (Tag ''a'' [(''style'', ''none'')] []) ''style''
      \<and> (parse_image (Tag ''a'' [(''style'', ''none'')] []) = Inr [] \<or>
          (\<exists>l. parse_image (Tag ''a'' [(''style'', ''none'')] []) =
             Inr (''<img src=\"'' @ l @ ''\" referrerpolicy=\"no-referrer\">''))))
   \<and> (\<not> has_attr (Tag ''a'' [] []) ''style'' \<and> parse_image (Tag ''a'' [] []) = Inl KeyError)
   \<and> (ex_photo \<in> set (find_all ''a'' [(''class'', ''tgme_widget_message_photo_wrap'')] ex_photo_post)
        \<and> \<not> has_attr ex_photo ''style'' \<and> parse_feed get_text ex_photo_post = Inl KeyError)
   \<and> (find ''a'' [(''class'', ''tgme_widget_message_link_preview'')] ex_preview_post = Some ex_preview
        \<and> find ''i'' [(''class'', ''link_preview_image'')] ex_preview = Some ex_preview_image
        \<and> \<not> has_attr ex_preview_image ''style''
        \<and> (\<exists>e. parse_feed get_text ex_preview_post = Inl e))"
proof -
  have a1: "has_attr (Tag ''a'' [(''style'', ''none'')] []) ''style''"
    by (simp add: has_attr_def)
  have a2: "\<not> has_attr (Tag ''a'' [] []) ''style''"
    by (simp add: has_attr_def)
  have a3: "ex_photo \<in> set (find_all ''a'' [(''class'', ''tgme_widget_message_photo_wrap'')] ex_photo_post)"
    by code_simp
  have a4: "\<not> has_attr ex_photo ''style''"
    by (simp add: has_attr_def ex_photo_def)
  have a5: "find ''a'' [(''class'', ''tgme_widget_message_link_preview'')] ex_preview_post = Some ex_preview"
    by code_simp
  have a6: "find ''i'' [(''class'', ''link_preview_image'')] ex_preview = Some ex_preview_image"
    by code_simp
  have a7: "\<not> has_attr ex_preview_image ''style''"
    by (simp add: has_attr_def ex_preview_image_def)
  from parse_image_conditional [where n = "''a''" and a = "[(''style'', ''none'')]" and cs = "[]"] a1
  have c1: "parse_image (Tag ''a'' [(''style'', ''none'')] []) = Inr [] \<or>
          (\<exists>l. parse_image (Tag ''a'' [(''style'', ''none'')] []) =
             Inr (''<img src=\"'' @ l @ ''\" referrerpolicy=\"no-referrer\">''))"
    by blast
  from parse_image_conditional [where n = "''a''" and a = "[]" and cs = "[]"] a2
  have c2: "parse_image (Tag ''a'' [] []) = Inl KeyError"
    by blast
  from parse_image_conditional [where img = ex_photo and ft = ex_photo_post and dc = get_text] a3 a4
  have c3: "parse_feed get_text ex_photo_post = Inl KeyError"
    by blast
  from parse_image_conditional [where ft = ex_preview_post and pv = ex_preview
      and pimg = ex_preview_image and dc = get_text]
    a5 a6 a7
  have c4: "\<exists>e. parse_feed get_text ex_preview_post = Inl e"
    by blast
  from a1 a2 a3 a4 a5 a6 a7 c1 c2 c3 c4 show ?thesis by blast
qed

end
